theory Spec2Isabelle
  imports Main
begin

section \<open>Go strings\<close>

text \<open>
  A Go \<^verbatim>\<open>string\<close> is a sequence of bytes; \<^typ>\<open>string\<close> (a list of 8-bit characters)
  is the same thing. The functions of package \<^verbatim>\<open>strings\<close> that \<^verbatim>\<open>hakrawler.go\<close> calls
  are given here by what they return.
\<close>

definition HasPrefix :: "string \<Rightarrow> string \<Rightarrow> bool" where
  "HasPrefix s pre = (length pre \<le> length s \<and> take (length pre) s = pre)"

definition HasSuffix :: "string \<Rightarrow> string \<Rightarrow> bool" where
  "HasSuffix s suf = (length suf \<le> length s \<and> drop (length s - length suf) s = suf)"

text \<open>\<^verbatim>\<open>strings.Index(s, substr)\<close>: the byte index of the first occurrence, or -1.\<close>

fun Index :: "string \<Rightarrow> string \<Rightarrow> int" where
  "Index [] substr = (if substr = [] then 0 else - 1)"
| "Index (c # s) substr =
     (if HasPrefix (c # s) substr then 0
      else (let i = Index s substr in if i < 0 then - 1 else i + 1))"

definition Contains :: "string \<Rightarrow> string \<Rightarrow> bool" where
  "Contains s substr = (0 \<le> Index s substr)"

lemma Index_nonempty: "0 \<le> Index s (c # cs) \<Longrightarrow> s \<noteq> []"
  by (cases s) auto

text \<open>
  \<^verbatim>\<open>strings.Count(s, substr)\<close>: the number of non-overlapping occurrences, counted from
  the left. Every separator this program passes is non-empty (\<^verbatim>\<open>";;"\<close>, \<^verbatim>\<open>": "\<close>,
  \<^verbatim>\<open>":"\<close>), so the equations are stated for a non-empty \<open>substr\<close> only.
\<close>

function (sequential) Count :: "string \<Rightarrow> string \<Rightarrow> nat" where
  "Count s (c # cs) =
     (let i = Index s (c # cs) in
      if i < 0 then 0 else 1 + Count (drop (nat i + length (c # cs)) s) (c # cs))"
  by pat_completeness auto
termination
proof (relation "measure (\<lambda>(s, substr). length s)")
  show "wf (measure (\<lambda>(s, substr). length s))" by simp
next
  fix s :: string and c :: char and cs :: string and x :: int
  assume "x = Index s (c # cs)" and "\<not> x < 0"
  then have "s \<noteq> []" using Index_nonempty [of s c cs] by simp
  then show "((drop (nat x + length (c # cs)) s, c # cs), (s, c # cs))
      \<in> measure (\<lambda>(s, substr). length s)"
    by simp
qed

text \<open>
  The loop of \<^verbatim>\<open>strings.genSplit(s, sep, 0, n)\<close>; the counter is the number of cuts
  still allowed, \<^verbatim>\<open>n - 1 - i\<close>.
\<close>

fun genSplit_loop :: "string \<Rightarrow> string \<Rightarrow> nat \<Rightarrow> string list" where
  "genSplit_loop s sep 0 = [s]"
| "genSplit_loop s sep (Suc k) =
     (let m = Index s sep in
      if m < 0 then [s]
      else take (nat m) s # genSplit_loop (drop (nat m + length sep) s) sep k)"

text \<open>
  \<^verbatim>\<open>strings.SplitN(s, sep, n)\<close> for a non-empty \<open>sep\<close>: \<open>n = 0\<close> gives nil, a negative
  \<open>n\<close> means all pieces, and \<open>n\<close> is capped at \<^verbatim>\<open>len(s) + 1\<close>.
\<close>

definition SplitN :: "string \<Rightarrow> string \<Rightarrow> int \<Rightarrow> string list" where
  "SplitN s sep n =
     (if n = 0 then []
      else (let n1 = (if n < 0 then int (Count s sep) + 1 else n);
                n2 = (if int (length s) + 1 < n1 then int (length s) + 1 else n1)
            in genSplit_loop s sep (nat (n2 - 1))))"

definition Split :: "string \<Rightarrow> string \<Rightarrow> string list" where
  "Split s sep = SplitN s sep (- 1)"

subsection \<open>strings.TrimSpace\<close>

text \<open>
  \<^verbatim>\<open>strings.TrimSpace\<close> removes leading and trailing white space as Unicode defines it
  (\<^verbatim>\<open>unicode.IsSpace\<close>): the six ASCII characters below, and the code points U+0085,
  U+00A0, U+1680, U+2000 to U+200A, U+2028, U+2029, U+202F, U+205F and U+3000, which a
  Go string holds in UTF-8. A byte that does not start a valid encoding decodes to
  U+FFFD, which is not white space, so a white-space rune is at the head (or the end) of
  a string exactly when one of these byte sequences is.
\<close>

definition asciiSpace :: "char list" where
  "asciiSpace = [CHR 0x09, CHR 0x0A, CHR 0x0B, CHR 0x0C, CHR 0x0D, CHR 0x20]"

definition unicodeSpace :: "string list" where
  "unicodeSpace =
     [[CHR 0xC2, CHR 0x85], [CHR 0xC2, CHR 0xA0], [CHR 0xE1, CHR 0x9A, CHR 0x80],
      [CHR 0xE2, CHR 0x80, CHR 0x80], [CHR 0xE2, CHR 0x80, CHR 0x81],
      [CHR 0xE2, CHR 0x80, CHR 0x82], [CHR 0xE2, CHR 0x80, CHR 0x83],
      [CHR 0xE2, CHR 0x80, CHR 0x84], [CHR 0xE2, CHR 0x80, CHR 0x85],
      [CHR 0xE2, CHR 0x80, CHR 0x86], [CHR 0xE2, CHR 0x80, CHR 0x87],
      [CHR 0xE2, CHR 0x80, CHR 0x88], [CHR 0xE2, CHR 0x80, CHR 0x89],
      [CHR 0xE2, CHR 0x80, CHR 0x8A], [CHR 0xE2, CHR 0x80, CHR 0xA8],
      [CHR 0xE2, CHR 0x80, CHR 0xA9], [CHR 0xE2, CHR 0x80, CHR 0xAF],
      [CHR 0xE2, CHR 0x81, CHR 0x9F], [CHR 0xE3, CHR 0x80, CHR 0x80]]"

definition spaces :: "string list" where
  "spaces = map (\<lambda>c. [c]) asciiSpace @ unicodeSpace"

text \<open>The number of bytes of the white-space rune a string starts (ends) with; 0 for none.\<close>

definition leadingSpace :: "string \<Rightarrow> nat" where
  "leadingSpace s = (case find (HasPrefix s) spaces of Some u \<Rightarrow> length u | None \<Rightarrow> 0)"

definition trailingSpace :: "string \<Rightarrow> nat" where
  "trailingSpace s = (case find (HasSuffix s) spaces of Some u \<Rightarrow> length u | None \<Rightarrow> 0)"

lemma leadingSpace_le: "leadingSpace s \<le> length s"
  by (auto simp: leadingSpace_def HasPrefix_def split: option.splits dest!: find_Some_iff [THEN iffD1])

lemma trailingSpace_le: "trailingSpace s \<le> length s"
  by (auto simp: trailingSpace_def HasSuffix_def split: option.splits dest!: find_Some_iff [THEN iffD1])

function TrimLeft :: "string \<Rightarrow> string" where
  "TrimLeft s = (let k = leadingSpace s in if k = 0 then s else TrimLeft (drop k s))"
  by pat_completeness auto
termination
proof (relation "measure length")
  show "wf (measure length)" by simp
next
  fix s :: string and x :: nat
  assume "x = leadingSpace s" and "x \<noteq> 0"
  then have "0 < x" and "x \<le> length s" using leadingSpace_le [of s] by simp_all
  then show "(drop x s, s) \<in> measure length" by simp
qed

function TrimRight :: "string \<Rightarrow> string" where
  "TrimRight s =
     (let k = trailingSpace s in if k = 0 then s else TrimRight (take (length s - k) s))"
  by pat_completeness auto
termination
proof (relation "measure length")
  show "wf (measure length)" by simp
next
  fix s :: string and x :: nat
  assume "x = trailingSpace s" and "x \<noteq> 0"
  then have "0 < x" and "x \<le> length s" using trailingSpace_le [of s] by simp_all
  then show "(take (length s - x) s, s) \<in> measure length" by simp
qed

definition TrimSpace :: "string \<Rightarrow> string" where
  "TrimSpace s = TrimRight (TrimLeft s)"

section \<open>parseHeaders\<close>

text \<open>
  The package-level variable \<^verbatim>\<open>headers\<close> is a \<^verbatim>\<open>map[string]string\<close> that is nil
  until \<^verbatim>\<open>parseHeaders\<close> makes it: \<open>None\<close> is the nil map. \<^verbatim>\<open>errors.New\<close> builds an
  error from its message. Indexing a slice out of range panics at run time; so do the
  other things \<open>panic\<close> lists: making a channel with a size the runtime refuses, a
  send on a closed channel, the close of a closed channel, and \<^verbatim>\<open>regexp.MustCompile\<close> on
  an expression that does not compile. A panic that nothing recovers from ends the
  program with status 2.
\<close>

datatype error = Error string

datatype panic =
    IndexOutOfRange
  | MakeChanSizeOutOfRange
  | SendOnClosedChannel
  | CloseOfClosedChannel
  | MustCompileError

type_synonym header_map = "string \<rightharpoonup> string"

text \<open>
  The body of the loop of \<^verbatim>\<open>parseHeaders\<close> up to its last line: the slice \<^verbatim>\<open>parts\<close>
  of one entry, or \<open>None\<close> where the loop says \<^verbatim>\<open>continue\<close>.
\<close>

definition header_parts :: "string \<Rightarrow> string list option" where
  "header_parts header =
     (if Contains header '': '' then Some (SplitN header '': '' 2)
      else if Contains header '':'' then Some (SplitN header '':'' 2)
      else None)"

fun parseHeaders_loop :: "string list \<Rightarrow> header_map \<Rightarrow> panic + header_map" where
  "parseHeaders_loop [] headers = Inr headers"
| "parseHeaders_loop (header # rest) headers =
     (case header_parts header of
        None \<Rightarrow> parseHeaders_loop rest headers
      | Some parts \<Rightarrow>
          (case parts of
             p0 # p1 # _ \<Rightarrow> parseHeaders_loop rest (headers(TrimSpace p0 \<mapsto> TrimSpace p1))
           | _ \<Rightarrow> Inl IndexOutOfRange))"

text \<open>
  \<^verbatim>\<open>parseHeaders(rawHeaders)\<close> reads and writes the global \<^verbatim>\<open>headers\<close>, passed here
  as the second argument and returned beside the error (\<open>None\<close> is Go's nil error).
\<close>

definition parseHeaders ::
  "string \<Rightarrow> header_map option \<Rightarrow> panic + (error option \<times> header_map option)" where
  "parseHeaders rawHeaders headers =
     (if rawHeaders \<noteq> [] then
        (if \<not> Contains rawHeaders '':'' then
           Inr (Some (Error ''headers flag not formatted properly (no colon to separate header and value)''),
                headers)
         else
           (case parseHeaders_loop (Split rawHeaders '';;'') Map.empty of
              Inl p \<Rightarrow> Inl p
            | Inr hs \<Rightarrow> Inr (None, Some hs)))
      else Inr (None, headers))"

text \<open>
  The name and the value one \<^verbatim>\<open>;;\<close>-separated entry stands for, white space trimmed;
  \<open>None\<close> for an entry that is skipped.
\<close>

definition header_entry :: "string \<Rightarrow> (string \<times> string) option" where
  "header_entry header =
     (case header_parts header of
        Some (p0 # p1 # _) \<Rightarrow> Some (TrimSpace p0, TrimSpace p1)
      | _ \<Rightarrow> None)"

section \<open>Regular expressions\<close>

text \<open>
  The fragment of Go's \<^verbatim>\<open>regexp\<close> syntax that the URL filter of \<^verbatim>\<open>main\<close> is written in:
  literals, \<^verbatim>\<open>.\<close> (any character but a newline), concatenation, \<^verbatim>\<open>|\<close>, \<^verbatim>\<open>*\<close> and \<^verbatim>\<open>?\<close>.
  \<open>Zero\<close> (nothing matches) is what a derivative leaves of a literal that did not match,
  and \<open>AnyByte\<close> is \<^verbatim>\<open>(?s:.)\<close>: both serve the matcher only.
\<close>

datatype regexp =
    Zero
  | Eps
  | Lit char
  | Dot
  | AnyByte
  | Seq regexp regexp
  | Alt regexp regexp
  | Star regexp
  | Opt regexp

fun nullable :: "regexp \<Rightarrow> bool" where
  "nullable Zero = False"
| "nullable Eps = True"
| "nullable (Lit c) = False"
| "nullable Dot = False"
| "nullable AnyByte = False"
| "nullable (Seq r s) = (nullable r \<and> nullable s)"
| "nullable (Alt r s) = (nullable r \<or> nullable s)"
| "nullable (Star r) = True"
| "nullable (Opt r) = True"

text \<open>What is left of \<open>r\<close> to match once the character \<open>a\<close> has been read.\<close>

fun deriv :: "char \<Rightarrow> regexp \<Rightarrow> regexp" where
  "deriv a Zero = Zero"
| "deriv a Eps = Zero"
| "deriv a (Lit c) = (if a = c then Eps else Zero)"
| "deriv a Dot = (if a = CHR 0x0A then Zero else Eps)"
| "deriv a AnyByte = Eps"
| "deriv a (Seq r s) =
     (if nullable r then Alt (Seq (deriv a r) s) (deriv a s) else Seq (deriv a r) s)"
| "deriv a (Alt r s) = Alt (deriv a r) (deriv a s)"
| "deriv a (Star r) = Seq (deriv a r) (Star r)"
| "deriv a (Opt r) = deriv a r"

text \<open>\<open>matches r s\<close>: the whole of \<open>s\<close> is in the language of \<open>r\<close>.\<close>

fun matches :: "regexp \<Rightarrow> string \<Rightarrow> bool" where
  "matches r [] = nullable r"
| "matches r (a # s) = matches (deriv a r) s"

text \<open>
  \<^verbatim>\<open>(*Regexp).Match(b)\<close> is not anchored: it reports whether \<open>b\<close> contains any match of
  the expression.
\<close>

definition Match :: "regexp \<Rightarrow> string \<Rightarrow> bool" where
  "Match r b = matches (Seq (Star AnyByte) (Seq r (Star AnyByte))) b"

section \<open>The collector that main configures\<close>

text \<open>
  Of the \<^verbatim>\<open>colly.Collector\<close> the three fields that decide what is crawled: \<^verbatim>\<open>main\<close> sets
  them at lines 90 to 112. A nil slice is the empty list.
\<close>

record Collector =
  AllowedDomains :: "string list"
  URLFilters :: "regexp list"
  MaxDepth :: int

text \<open>Lines 81 to 87: the seed's host name, and the value of a \<^verbatim>\<open>Host\<close> header if one is set.\<close>

definition allowed_domains :: "string \<Rightarrow> header_map option \<Rightarrow> string list" where
  "allowed_domains hostname headers =
     [hostname] @
     (case headers of
        None \<Rightarrow> []
      | Some m \<Rightarrow> (case m ''Host'' of Some val \<Rightarrow> [val] | None \<Rightarrow> []))"

text \<open>
  Line 111: the expression compiled from
  \<^verbatim>\<open>".*(\\.|\\/\\/)" + strings.ReplaceAll(hostname, ".", "\\.") + "((#|\\/|\\?).*)?"\<close>.
  Only the dots of the host name are escaped, so the host name stands for itself only if
  it holds no other character that \<^verbatim>\<open>regexp\<close> reads as syntax. For a host name that
  does, or that holds a byte outside ASCII (which \<^verbatim>\<open>regexp\<close> reads as UTF-8), the
  compiled expression is not modelled (\<open>None\<close>).
\<close>

definition regexp_syntax :: "char list" where
  "regexp_syntax = [CHR 0x5C, CHR ''+'', CHR ''*'', CHR ''?'', CHR ''('', CHR '')'', CHR ''|'',
     CHR ''['', CHR '']'', CHR ''{'', CHR ''}'', CHR ''^'', CHR ''$'']"

definition literal :: "string \<Rightarrow> regexp \<Rightarrow> regexp" where
  "literal s r = foldr (\<lambda>c. Seq (Lit c)) s r"

definition URLFilter :: "string \<Rightarrow> regexp option" where
  "URLFilter hostname =
     (if list_ex (\<lambda>c. c \<in> set regexp_syntax \<or> 128 \<le> (of_char c :: nat)) hostname then None
      else Some
        (Seq (Star Dot)
          (Seq (Alt (Lit CHR ''.'') (Seq (Lit CHR ''/'') (Lit CHR ''/'')))
            (literal hostname
              (Opt (Seq (Alt (Lit CHR ''#'') (Alt (Lit CHR ''/'') (Lit CHR ''?''))) (Star Dot)))))))"

text \<open>
  Lines 90 to 112: \<^verbatim>\<open>colly.NewCollector\<close> with the allowed domains and the depth, and with
  \<^verbatim>\<open>-subs\<close> the allowed domains taken away again and the URL filter put in their place.
\<close>

definition collector :: "string \<Rightarrow> header_map option \<Rightarrow> int \<Rightarrow> bool \<Rightarrow> Collector option" where
  "collector hostname headers depth subsInScope =
     (let c = \<lparr>AllowedDomains = allowed_domains hostname headers, URLFilters = [],
                MaxDepth = depth\<rparr>
      in if subsInScope then
           (case URLFilter hostname of
              None \<Rightarrow> None
            | Some re \<Rightarrow> Some (c\<lparr>AllowedDomains := [], URLFilters := [re]\<rparr>))
         else Some c)"

text \<open>
  What the two lists mean to the collector: a request for the URL \<open>u\<close>, whose host name
  is \<open>domain\<close>, goes ahead only if \<open>u\<close> matches one of the URL filters (when there are any)
  and \<open>domain\<close> is one of the allowed domains (when there are any).
\<close>

definition isDomainAllowed :: "Collector \<Rightarrow> string \<Rightarrow> bool" where
  "isDomainAllowed c domain = (AllowedDomains c = [] \<or> domain \<in> set (AllowedDomains c))"

definition isMatchingFilter :: "regexp list \<Rightarrow> string \<Rightarrow> bool" where
  "isMatchingFilter fs u = list_ex (\<lambda>r. Match r u) fs"

definition checkFilters :: "Collector \<Rightarrow> string \<Rightarrow> string \<Rightarrow> bool" where
  "checkFilters c u domain =
     ((URLFilters c = [] \<or> isMatchingFilter (URLFilters c) u) \<and> isDomainAllowed c domain)"

section \<open>The results channel and printResult\<close>

text \<open>
  \<^verbatim>\<open>results\<close> is a channel of strings. \<open>sent\<close> lists, in order, the values the
  channel has accepted, which is what the \<^verbatim>\<open>range\<close> loops of \<^verbatim>\<open>main\<close> receive. Go
  panics on a send on a closed channel and on the close of a closed channel. (A send on
  a full channel waits for the receiver; waiting is not modelled.)
\<close>

record chan =
  sent :: "string list"
  closed :: bool

text \<open>
  \<^verbatim>\<open>make(chan string, n)\<close>, line 68. It panics on a negative size, and on one the
  runtime cannot give a buffer for: \<open>fits\<close> says whether the runtime's limit on a
  channel's size, and the memory there is, allow a buffer of \<open>n\<close> strings.
\<close>

definition make_chan :: "int \<Rightarrow> bool \<Rightarrow> panic + chan" where
  "make_chan n fits =
     (if n < 0 \<or> \<not> fits then Inl MakeChanSizeOutOfRange
      else Inr \<lparr>sent = [], closed = False\<rparr>)"

definition chan_send :: "chan \<Rightarrow> string \<Rightarrow> panic + chan" where
  "chan_send ch v =
     (if closed ch then Inl SendOnClosedChannel else Inr (ch\<lparr>sent := sent ch @ [v]\<rparr>))"

definition chan_close :: "chan \<Rightarrow> panic + chan" where
  "chan_close ch = (if closed ch then Inl CloseOfClosedChannel else Inr (ch\<lparr>closed := True\<rparr>))"

record Result =
  Source :: string
  URL :: string

text \<open>
  Of a \<^verbatim>\<open>colly.HTMLElement\<close> the two things the callbacks ask of it: \<^verbatim>\<open>e.Attr(k)\<close> and
  \<^verbatim>\<open>e.Request.AbsoluteURL(u)\<close>. Both are the library's answers, taken as given.
\<close>

record HTMLElement =
  Attr :: "string \<Rightarrow> string"
  AbsoluteURL :: "string \<Rightarrow> string"

text \<open>
  The line \<^verbatim>\<open>printResult\<close> builds from a non-empty absolute URL. \<open>marshal\<close> stands for
  \<^verbatim>\<open>json.Marshal\<close> on a \<^verbatim>\<open>Result\<close>, whose output is taken as given.
\<close>

definition result_line :: "(Result \<Rightarrow> string) \<Rightarrow> string \<Rightarrow> bool \<Rightarrow> bool \<Rightarrow> string \<Rightarrow> string" where
  "result_line marshal sourceName showSource showJson result =
     (if showJson then marshal \<lparr>Source = sourceName, URL = result\<rparr>
      else if showSource then ''['' @ sourceName @ ''] '' @ result
      else result)"

text \<open>The body of \<^verbatim>\<open>printResult\<close>, which panics if the send at line 263 does.\<close>

definition printResult_body ::
  "(Result \<Rightarrow> string) \<Rightarrow> string \<Rightarrow> string \<Rightarrow> bool \<Rightarrow> bool \<Rightarrow> chan \<Rightarrow> HTMLElement \<Rightarrow> panic + chan" where
  "printResult_body marshal link sourceName showSource showJson results e =
     (let result = AbsoluteURL e link in
      if result \<noteq> [] then
        chan_send results (result_line marshal sourceName showSource showJson result)
      else Inr results)"

text \<open>
  \<^verbatim>\<open>printResult\<close>: the deferred function of lines 258 to 262 recovers from the panic, and
  the call returns with the channel as it was.
\<close>

definition printResult ::
  "(Result \<Rightarrow> string) \<Rightarrow> string \<Rightarrow> string \<Rightarrow> bool \<Rightarrow> bool \<Rightarrow> chan \<Rightarrow> HTMLElement \<Rightarrow> chan" where
  "printResult marshal link sourceName showSource showJson results e =
     (case printResult_body marshal link sourceName showSource showJson results e of
        Inl p \<Rightarrow> results
      | Inr ch \<Rightarrow> ch)"

section \<open>The three callbacks\<close>

text \<open>
  Lines 124 to 138. Each callback returns the channel after its \<^verbatim>\<open>printResult\<close> and the
  links it hands to \<^verbatim>\<open>e.Request.Visit\<close>, whose returned error it ignores.
\<close>

definition OnHTML_a ::
  "(Result \<Rightarrow> string) \<Rightarrow> bool \<Rightarrow> bool \<Rightarrow> chan \<Rightarrow> HTMLElement \<Rightarrow> chan \<times> string list" where
  "OnHTML_a marshal showSource showJson results e =
     (let link = Attr e ''href'' in
      (printResult marshal link ''href'' showSource showJson results e, [link]))"

definition OnHTML_script ::
  "(Result \<Rightarrow> string) \<Rightarrow> bool \<Rightarrow> bool \<Rightarrow> chan \<Rightarrow> HTMLElement \<Rightarrow> chan \<times> string list" where
  "OnHTML_script marshal showSource showJson results e =
     (printResult marshal (Attr e ''src'') ''script'' showSource showJson results e, [])"

definition OnHTML_form ::
  "(Result \<Rightarrow> string) \<Rightarrow> bool \<Rightarrow> bool \<Rightarrow> chan \<Rightarrow> HTMLElement \<Rightarrow> chan \<times> string list" where
  "OnHTML_form marshal showSource showJson results e =
     (printResult marshal (Attr e ''action'') ''form'' showSource showJson results e, [])"

section \<open>The goroutine that crawls, and main\<close>

text \<open>
  \<^verbatim>\<open>url.Parse\<close> returns an error or a URL, of which \<^verbatim>\<open>extractHostname\<close> reads
  \<^verbatim>\<open>u.Hostname()\<close> and nothing else. \<^verbatim>\<open>extractHostname\<close> takes here what
  \<^verbatim>\<open>url.Parse(urlString)\<close> returned.
\<close>

record url_URL =
  Hostname :: string

definition extractHostname :: "error + url_URL \<Rightarrow> string \<times> error option" where
  "extractHostname parsed =
     (case parsed of
        Inl err \<Rightarrow> ([], Some err)
      | Inr u \<Rightarrow> (Hostname u, None))"

text \<open>
  \<^verbatim>\<open>regexp.MustCompile\<close> on the expression of line 111: it returns the compiled
  expression, or it panics. Only the dots of the host name are escaped, and \<^verbatim>\<open>url.Parse\<close>
  accepts host names such as \<^verbatim>\<open>a(b.com\<close>, so the expression need not compile.
  For a host name that stands for itself the result is \<open>URLFilter\<close>. A host name that
  holds no backslash and no square bracket, and not as many \<^verbatim>\<open>(\<close> as \<^verbatim>\<open>)\<close>, gives an
  expression with a group that is not opened or not closed: the call panics. For any
  other host name \<open>other\<close> is what the call does: the expression it returns, or \<open>None\<close>
  if it panics.
\<close>

definition missing_paren :: "string \<Rightarrow> bool" where
  "missing_paren hostname =
     (\<not> list_ex (\<lambda>c. c \<in> set [CHR 0x5C, CHR ''['', CHR '']'']) hostname \<and>
      count_list hostname CHR ''('' \<noteq> count_list hostname CHR '')'')"

definition MustCompile_URLFilter :: "string \<Rightarrow> regexp option \<Rightarrow> panic + regexp" where
  "MustCompile_URLFilter hostname other =
     (case URLFilter hostname of
        Some re \<Rightarrow> Inr re
      | None \<Rightarrow>
          if missing_paren hostname then Inl MustCompileError
          else (case other of None \<Rightarrow> Inl MustCompileError | Some re \<Rightarrow> Inr re))"

text \<open>Lines 109 to 112: the URL filters that the collector gets.\<close>

definition set_URLFilters :: "string \<Rightarrow> bool \<Rightarrow> regexp option \<Rightarrow> panic + regexp list" where
  "set_URLFilters hostname subsInScope other =
     (if subsInScope then
        (case MustCompile_URLFilter hostname other of
           Inl p \<Rightarrow> Inl p
         | Inr re \<Rightarrow> Inr [re])
      else Inr [])"

text \<open>
  How the goroutine of lines 69 to 194 ends: it returns at line 78 with \<^verbatim>\<open>results\<close> left
  open; or it panics at line 111, which ends the program; or it reaches
  \<^verbatim>\<open>close(results)\<close> at line 193, after the crawl or after the timeout, whichever
  \<^verbatim>\<open>select\<close> takes; or, with no timeout, it waits in \<^verbatim>\<open>c.Wait()\<close> for a crawl that
  never ends. \<open>crawl_returns\<close> says whether \<^verbatim>\<open>c.Visit\<close> and \<^verbatim>\<open>c.Wait\<close> ever return.
\<close>

datatype goroutine_end = ReturnedEarly error | Panicked panic | ReachedClose | WaitsForever

definition goroutine ::
  "error + url_URL \<Rightarrow> bool \<Rightarrow> regexp option \<Rightarrow> int \<Rightarrow> bool \<Rightarrow> goroutine_end" where
  "goroutine parsed subsInScope other timeout crawl_returns =
     (case extractHostname parsed of
        (hostname, Some err) \<Rightarrow> ReturnedEarly err
      | (hostname, None) \<Rightarrow>
          (case set_URLFilters hostname subsInScope other of
             Inl p \<Rightarrow> Panicked p
           | Inr filters \<Rightarrow>
               if timeout = - 1 then (if crawl_returns then ReachedClose else WaitsForever)
               else ReachedClose))"

text \<open>
  What happens to \<^verbatim>\<open>results\<close> during a run, in the order it happens: a callback calls
  \<^verbatim>\<open>printResult(link, sourceName, ..., e)\<close>, or the goroutine executes
  \<^verbatim>\<open>close(results)\<close>. Channel operations are atomic, so a run is a sequence of them.
\<close>

datatype event = Found string string HTMLElement | CloseResults

fun run :: "(Result \<Rightarrow> string) \<Rightarrow> bool \<Rightarrow> bool \<Rightarrow> event list \<Rightarrow> chan \<Rightarrow> panic + chan" where
  "run marshal showSource showJson [] ch = Inr ch"
| "run marshal showSource showJson (Found link sourceName e # evs) ch =
     run marshal showSource showJson evs
       (printResult marshal link sourceName showSource showJson ch e)"
| "run marshal showSource showJson (CloseResults # evs) ch =
     (case chan_close ch of
        Inl p \<Rightarrow> Inl p
      | Inr ch' \<Rightarrow> run marshal showSource showJson evs ch')"

text \<open>
  What the goroutine itself does to \<^verbatim>\<open>results\<close>: one close if it reaches line 193,
  nothing if it ends before that line or never reaches it.
\<close>

definition goroutine_events ::
  "error + url_URL \<Rightarrow> bool \<Rightarrow> regexp option \<Rightarrow> int \<Rightarrow> bool \<Rightarrow> event list" where
  "goroutine_events parsed subsInScope other timeout crawl_returns =
     (case goroutine parsed subsInScope other timeout crawl_returns of
        ReachedClose \<Rightarrow> [CloseResults]
      | ReturnedEarly err \<Rightarrow> []
      | Panicked p \<Rightarrow> []
      | WaitsForever \<Rightarrow> [])"

text \<open>The lines that the callbacks of a run send, in order (closes left out).\<close>

fun lines_of :: "(Result \<Rightarrow> string) \<Rightarrow> bool \<Rightarrow> bool \<Rightarrow> event list \<Rightarrow> string list" where
  "lines_of marshal showSource showJson [] = []"
| "lines_of marshal showSource showJson (Found link sourceName e # evs) =
     (if AbsoluteURL e link \<noteq> []
      then [result_line marshal sourceName showSource showJson (AbsoluteURL e link)]
      else []) @ lines_of marshal showSource showJson evs"
| "lines_of marshal showSource showJson (CloseResults # evs) =
     lines_of marshal showSource showJson evs"

text \<open>
  \<^verbatim>\<open>isUnique\<close> on the \<^verbatim>\<open>sync.Map\<close> \<^verbatim>\<open>sm\<close>, and the two loops of \<^verbatim>\<open>main\<close> over
  \<^verbatim>\<open>results\<close> (lines 198 to 207), given the values the channel delivers before it is
  closed. With \<^verbatim>\<open>-unique\<close> the first loop takes them all and the second finds the channel
  closed and empty.
\<close>

definition isUnique :: "string \<Rightarrow> (string \<rightharpoonup> bool) \<Rightarrow> bool \<times> (string \<rightharpoonup> bool)" where
  "isUnique url sm =
     (case sm url of
        Some present \<Rightarrow> (False, sm)
      | None \<Rightarrow> (True, sm(url \<mapsto> True)))"

fun unique_loop :: "string list \<Rightarrow> (string \<rightharpoonup> bool) \<Rightarrow> string list" where
  "unique_loop [] sm = []"
| "unique_loop (res # rest) sm =
     (case isUnique res sm of
        (True, sm') \<Rightarrow> res # unique_loop rest sm'
      | (False, sm') \<Rightarrow> unique_loop rest sm')"

definition main_output :: "bool \<Rightarrow> string list \<Rightarrow> string list" where
  "main_output unique received =
     (if unique then unique_loop received Map.empty else []) @
     (if unique then [] else received)"

text \<open>
  How the program ends, from the flags as \<^verbatim>\<open>flag.Parse\<close> read them. \<^verbatim>\<open>main\<close> exits
  with 1 on a header error (line 58). It then makes \<^verbatim>\<open>results\<close> with room for
  \<^verbatim>\<open>*threads\<close> strings (line 68), which may panic, and starts the goroutine. It leaves
  its \<^verbatim>\<open>range\<close> loops, and exits with 0, once \<^verbatim>\<open>results\<close> is closed, and stays in them
  while it is not; a panic of the goroutine ends the program. \<open>Crashed\<close> is the end by
  a panic, with status 2; \<open>Blocked\<close> is \<^verbatim>\<open>main\<close> waiting on a channel that is never closed.
\<close>

datatype outcome = Exit int | Crashed panic | Blocked

definition main_outcome ::
  "string \<Rightarrow> int \<Rightarrow> bool \<Rightarrow> error + url_URL \<Rightarrow> bool \<Rightarrow> regexp option \<Rightarrow> int \<Rightarrow> bool \<Rightarrow>
     outcome" where
  "main_outcome rawHeaders threads fits parsed subsInScope other timeout crawl_returns =
     (case parseHeaders rawHeaders None of
        Inl p \<Rightarrow> Crashed p
      | Inr (Some err, headers) \<Rightarrow> Exit 1
      | Inr (None, headers) \<Rightarrow>
          (case make_chan threads fits of
             Inl p \<Rightarrow> Crashed p
           | Inr results \<Rightarrow>
               (case goroutine parsed subsInScope other timeout crawl_returns of
                  ReachedClose \<Rightarrow> Exit 0
                | Panicked p \<Rightarrow> Crashed p
                | ReturnedEarly e \<Rightarrow> Blocked
                | WaitsForever \<Rightarrow> Blocked)))"

section \<open>A page to run the callbacks on\<close>

text \<open>
  The page \<^verbatim>\<open>http://h/\<close> holding \<^verbatim>\<open><a href="/a">\<close>, \<^verbatim>\<open><script src="/b.js">\<close>,
  \<^verbatim>\<open><form action="/c">\<close>, a second script \<^verbatim>\<open><script src="/a">\<close>, a link
  \<^verbatim>\<open><a href="http://other.example/x">\<close> to another host and a link
  \<^verbatim>\<open><a href="#top">\<close> into the page itself. \<open>resolve_h\<close> lists what
  \<^verbatim>\<open>AbsoluteURL\<close> answers for these attribute values on that page: the absolute URL,
  and the empty string for the fragment. \<open>element k v\<close> is an element whose attribute
  \<open>k\<close> is \<open>v\<close>; \<open>plain\<close> is an encoder for runs that do not ask for JSON.
\<close>

definition resolve_h :: "string \<Rightarrow> string" where
  "resolve_h u =
     (if u = ''/a'' then ''http://h/a''
      else if u = ''/b.js'' then ''http://h/b.js''
      else if u = ''/c'' then ''http://h/c''
      else if u = ''http://other.example/x'' then ''http://other.example/x''
      else [])"

definition element :: "string \<Rightarrow> string \<Rightarrow> HTMLElement" where
  "element k v = \<lparr>Attr = (\<lambda>k'. if k' = k then v else []), AbsoluteURL = resolve_h\<rparr>"

definition plain :: "Result \<Rightarrow> string" where
  "plain r = []"

definition open_chan :: chan where
  "open_chan = \<lparr>sent = [], closed = False\<rparr>"

section \<open>What parseHeaders accepts and stores\<close>

lemma HasPrefix_Cons_single: "HasPrefix (x # s) [c] = (x = c)"
  by (auto simp: HasPrefix_def)

lemma Index_ge: "- 1 \<le> Index s sub"
  by (induction s) (auto simp: Let_def)

lemma Contains_single: "Contains s [c] = (c \<in> set s)"
proof (induction s)
  case Nil
  show ?case by (simp add: Contains_def)
next
  case (Cons x s)
  then show ?case
    using Index_ge [of s "[c]"]
    by (auto simp: Contains_def HasPrefix_Cons_single Let_def)
qed

lemma Index_found:
  "0 \<le> Index s sub \<Longrightarrow>
     nat (Index s sub) + length sub \<le> length s \<and>
     take (length sub) (drop (nat (Index s sub)) s) = sub"
proof (induction s)
  case Nil
  then show ?case by (simp split: if_splits)
next
  case (Cons x s)
  show ?case
  proof (cases "HasPrefix (x # s) sub")
    case True
    then show ?thesis by (simp add: HasPrefix_def)
  next
    case False
    with Cons.prems have i: "0 \<le> Index s sub" and e: "Index (x # s) sub = Index s sub + 1"
      by (auto simp: Let_def split: if_splits)
    from Cons.IH [OF i] show ?thesis using i e by (simp add: nat_add_distrib)
  qed
qed

lemma Contains_Cons: "Contains s sub \<Longrightarrow> Contains (x # s) sub"
  by (auto simp: Contains_def Let_def)

lemma take_app_le: "n \<le> length xs \<Longrightarrow> take n (xs @ ys) = take n xs"
  by simp

lemma Index_first:
  "sub \<noteq> [] \<Longrightarrow> \<not> Contains (a @ butlast sub) sub \<Longrightarrow> Index (a @ sub @ b) sub = int (length a)"
proof (induction a)
  case Nil
  then show ?case by (cases sub) (auto simp: HasPrefix_def)
next
  case (Cons x a)
  have np: "\<not> HasPrefix (x # a @ sub @ b) sub"
  proof
    assume h: "HasPrefix (x # a @ sub @ b) sub"
    have e: "x # a @ sub @ b = ((x # a) @ butlast sub) @ (last sub # b)"
      using Cons.prems(1) by simp
    have "take (length sub) (((x # a) @ butlast sub) @ (last sub # b))
        = take (length sub) ((x # a) @ butlast sub)"
    proof (rule take_app_le)
      show "length sub \<le> length ((x # a) @ butlast sub)" by simp
    qed
    then have "take (length sub) ((x # a) @ butlast sub) = take (length sub) (x # a @ sub @ b)"
      by (subst e) (rule sym)
    then have "HasPrefix ((x # a) @ butlast sub) sub" using h by (simp add: HasPrefix_def)
    then have "Contains ((x # a) @ butlast sub) sub" by (simp add: Contains_def)
    with Cons.prems(2) show False by simp
  qed
  have "\<not> Contains (a @ butlast sub) sub"
    using Cons.prems(2) Contains_Cons [of "a @ butlast sub" sub x] by auto
  from Cons.IH [OF Cons.prems(1) this] np show ?case by (simp add: Let_def)
qed

lemma Contains_set: "Contains s sub \<Longrightarrow> set sub \<subseteq> set s"
proof -
  assume "Contains s sub"
  then have "take (length sub) (drop (nat (Index s sub)) s) = sub"
    using Index_found [of s sub] by (simp add: Contains_def)
  then have "set sub \<subseteq> set (drop (nat (Index s sub)) s)"
    by (metis set_take_subset)
  then show ?thesis using set_drop_subset by fastforce
qed

lemma SplitN_2:
  assumes "sub \<noteq> []" and "0 \<le> Index s sub"
  shows "SplitN s sub 2 = [take (nat (Index s sub)) s, drop (nat (Index s sub) + length sub) s]"
proof -
  obtain c cs where "sub = c # cs" using assms(1) by (cases sub) auto
  with assms(2) have "s \<noteq> []" using Index_nonempty by blast
  then have "\<not> int (length s) + 1 < 2" by (cases s) auto
  then have "SplitN s sub 2 = genSplit_loop s sub (Suc 0)"
    by (simp add: SplitN_def)
  then show ?thesis using assms(2) by (simp add: Let_def)
qed

lemma header_parts_skip: "CHR '':'' \<notin> set header \<Longrightarrow> header_parts header = None"
  using Contains_set [of header "'': ''"] Contains_set [of header "'':''"]
  by (auto simp: header_parts_def)

lemma header_parts_colon_space:
  assumes "\<not> Contains (n @ '':'') '': ''"
  shows "header_parts (n @ '': '' @ v) = Some [n, v]"
proof -
  have i: "Index (n @ '': '' @ v) '': '' = int (length n)"
    using Index_first [of "'': ''" n v] assms by simp
  then have "Contains (n @ '': '' @ v) '': ''" by (simp add: Contains_def)
  moreover have "SplitN (n @ '': '' @ v) '': '' 2 = [n, v]"
    using SplitN_2 [of "'': ''" "n @ '': '' @ v"] i by simp
  ultimately show ?thesis by (simp add: header_parts_def)
qed

lemma header_parts_colon:
  assumes "CHR '':'' \<notin> set n" and "\<not> Contains (n @ '':'' @ v) '': ''"
  shows "header_parts (n @ '':'' @ v) = Some [n, v]"
proof -
  have "\<not> Contains (n @ butlast '':'') '':''" using assms(1) by (simp add: Contains_single)
  then have i: "Index (n @ '':'' @ v) '':'' = int (length n)"
    using Index_first [of "'':''" n v] by simp
  then have "Contains (n @ '':'' @ v) '':''" by (simp add: Contains_def)
  moreover have "SplitN (n @ '':'' @ v) '':'' 2 = [n, v]"
    using SplitN_2 [of "'':''" "n @ '':'' @ v"] i by simp
  ultimately show ?thesis using assms(2) by (simp add: header_parts_def)
qed

lemma header_parts_two: "header_parts header = Some parts \<Longrightarrow> \<exists>p0 p1. parts = [p0, p1]"
  by (auto simp: header_parts_def Contains_def SplitN_2 split: if_splits)

lemma parseHeaders_loop_map:
  "parseHeaders_loop hs m = Inr (m ++ map_of (rev (List.map_filter header_entry hs)))"
proof (induction hs arbitrary: m)
  case Nil
  show ?case by (simp add: List.map_filter_simps)
next
  case (Cons h hs)
  show ?case
  proof (cases "header_parts h")
    case None
    then show ?thesis by (simp add: Cons.IH List.map_filter_simps header_entry_def)
  next
    case (Some parts)
    then obtain p0 p1 where p: "parts = [p0, p1]" using header_parts_two by blast
    with Some have e: "header_entry h = Some (TrimSpace p0, TrimSpace p1)"
      by (simp add: header_entry_def)
    have "m ++ map_of (rev (List.map_filter header_entry hs) @ [(TrimSpace p0, TrimSpace p1)])
        = m(TrimSpace p0 \<mapsto> TrimSpace p1) ++ map_of (rev (List.map_filter header_entry hs))"
      by (auto simp: fun_eq_iff map_add_def split: option.splits)
    moreover have "parseHeaders_loop (h # hs) m
        = parseHeaders_loop hs (m(TrimSpace p0 \<mapsto> TrimSpace p1))"
      using Some p by simp
    moreover have "List.map_filter header_entry (h # hs)
        = (TrimSpace p0, TrimSpace p1) # List.map_filter header_entry hs"
      using e by (simp add: List.map_filter_simps)
    ultimately show ?thesis by (simp only: Cons.IH rev.simps)
  qed
qed

text \<open>
  Claim C10. \<^verbatim>\<open>parseHeaders\<close> returns an error exactly when its input is non-empty and
  holds no colon; it leaves \<^verbatim>\<open>headers\<close> alone on the empty input; and on a non-empty input
  with a colon it returns no error and makes \<^verbatim>\<open>headers\<close> the map of the entries of
  \<^verbatim>\<open>strings.Split(rawHeaders, ";;")\<close>, a later entry overriding an earlier one of the same
  name. An entry with no colon is skipped; an entry is cut at its first \<^verbatim>\<open>": "\<close> when it
  has one, and at its first \<^verbatim>\<open>":"\<close> otherwise, and name and value are trimmed with
  \<^verbatim>\<open>strings.TrimSpace\<close>.
\<close>

theorem parseHeaders_colon_rule:
  "((\<exists>e hs. parseHeaders raw h = Inr (Some e, hs)) \<longleftrightarrow> (raw \<noteq> [] \<and> CHR '':'' \<notin> set raw)) \<and>
   (raw = [] \<longrightarrow> parseHeaders raw h = Inr (None, h)) \<and>
   (raw \<noteq> [] \<and> CHR '':'' \<in> set raw \<longrightarrow>
      parseHeaders raw h =
        Inr (None, Some (map_of (rev (List.map_filter header_entry (Split raw '';;'')))))) \<and>
   (CHR '':'' \<notin> set header \<longrightarrow> header_entry header = None) \<and>
   (\<not> Contains (n @ '':'') '': '' \<longrightarrow>
      header_entry (n @ '': '' @ v) = Some (TrimSpace n, TrimSpace v)) \<and>
   (CHR '':'' \<notin> set n' \<and> \<not> Contains (n' @ '':'' @ v') '': '' \<longrightarrow>
      header_entry (n' @ '':'' @ v') = Some (TrimSpace n', TrimSpace v'))"
proof (intro conjI impI)
  show "(\<exists>e hs. parseHeaders raw h = Inr (Some e, hs)) \<longleftrightarrow> (raw \<noteq> [] \<and> CHR '':'' \<notin> set raw)"
    by (auto simp: parseHeaders_def Contains_single parseHeaders_loop_map)
next
  assume "raw = []"
  then show "parseHeaders raw h = Inr (None, h)" by (simp add: parseHeaders_def)
next
  assume "raw \<noteq> [] \<and> CHR '':'' \<in> set raw"
  then show "parseHeaders raw h =
      Inr (None, Some (map_of (rev (List.map_filter header_entry (Split raw '';;'')))))"
    by (simp add: parseHeaders_def Contains_single parseHeaders_loop_map)
next
  assume "CHR '':'' \<notin> set header"
  then show "header_entry header = None"
    by (simp add: header_entry_def header_parts_skip)
next
  assume "\<not> Contains (n @ '':'') '': ''"
  then show "header_entry (n @ '': '' @ v) = Some (TrimSpace n, TrimSpace v)"
    using header_parts_colon_space [of n v] by (simp add: header_entry_def)
next
  assume "CHR '':'' \<notin> set n' \<and> \<not> Contains (n' @ '':'' @ v') '': ''"
  then show "header_entry (n' @ '':'' @ v') = Some (TrimSpace n', TrimSpace v')"
    using header_parts_colon [of n' v'] by (simp add: header_entry_def)
qed

text \<open>
  The rule at the flag \<^verbatim>\<open>"Cookie: a=b;;junk;; X :y "\<close>: the entry \<^verbatim>\<open>junk\<close> is skipped, the
  other two are stored trimmed.
\<close>

theorem parseHeaders_colon_rule_witness:
  "parseHeaders ''Cookie: a=b;;junk;; X :y '' None =
     Inr (None, Some (map_of [(''X'', ''y''), (''Cookie'', ''a=b'')])) \<and>
   header_entry ''junk'' = None \<and>
   header_entry ''Cookie: a=b'' = Some (''Cookie'', ''a=b'') \<and>
   header_entry '' X :y '' = Some (''X'', ''y'')"
proof -
  have sp: "Split ''Cookie: a=b;;junk;; X :y '' '';;'' = [''Cookie: a=b'', ''junk'', '' X :y '']"
    by code_simp
  have c1: "\<not> Contains (''Cookie'' @ '':'') '': ''" by code_simp
  have c2: "\<not> Contains ('' X '' @ '':'' @ ''y '') '': ''" by code_simp
  have t: "TrimSpace ''Cookie'' = ''Cookie''" "TrimSpace ''a=b'' = ''a=b''"
    "TrimSpace '' X '' = ''X''" "TrimSpace ''y '' = ''y''"
    by code_simp+
  note r = parseHeaders_colon_rule [of "''Cookie: a=b;;junk;; X :y ''" None "''junk''"
      "''Cookie''" "''a=b''" "'' X ''" "''y ''"]
  have e1: "header_entry ''junk'' = None" using r by simp
  have e2: "header_entry ''Cookie: a=b'' = Some (''Cookie'', ''a=b'')"
    using r c1 t by simp
  have e3: "header_entry '' X :y '' = Some (''X'', ''y'')"
    using r c2 t by simp
  have "parseHeaders ''Cookie: a=b;;junk;; X :y '' None =
      Inr (None, Some (map_of (rev (List.map_filter header_entry
        (Split ''Cookie: a=b;;junk;; X :y '' '';;'')))))"
    using r by simp
  then have "parseHeaders ''Cookie: a=b;;junk;; X :y '' None =
      Inr (None, Some (map_of [(''X'', ''y''), (''Cookie'', ''a=b'')]))"
    by (simp only: sp List.map_filter_simps e1 e2 e3 option.case rev.simps append.simps)
  with e1 e2 e3 show ?thesis by (intro conjI)
qed

section \<open>Scope\<close>

text \<open>
  Claim C9. Without \<^verbatim>\<open>-subs\<close> the collector gets no URL filter and the allowed domains
  of lines 81 to 87: the seed's host name, and the value of the \<^verbatim>\<open>Host\<close> header when
  \<^verbatim>\<open>-h\<close> sets one. So a request passes the collector's filters exactly if the host name
  of its URL is the seed's, or is that header's value.
\<close>

theorem subs_off_allowed_domains:
  "\<exists>c. collector hostname headers depth False = Some c \<and>
     AllowedDomains c = allowed_domains hostname headers \<and>
     URLFilters c = [] \<and>
     set (AllowedDomains c) =
       {hostname} \<union> {val. \<exists>m. headers = Some m \<and> m ''Host'' = Some val} \<and>
     (checkFilters c u domain \<longleftrightarrow>
        domain = hostname \<or> (\<exists>m. headers = Some m \<and> m ''Host'' = Some domain))"
  by (auto simp: collector_def allowed_domains_def checkFilters_def isDomainAllowed_def
      split: option.splits)

text \<open>
  With \<^verbatim>\<open>-u http://example.com/ -h "Host: internal.example"\<close> both host names are
  allowed and a subdomain of the seed is not.
\<close>

theorem subs_off_allowed_domains_witness:
  "\<exists>hs c. parseHeaders ''Host: internal.example'' None = Inr (None, Some hs) \<and>
     collector ''example.com'' (Some hs) 2 False = Some c \<and>
     AllowedDomains c = [''example.com'', ''internal.example''] \<and>
     checkFilters c ''http://internal.example/x'' ''internal.example'' \<and>
     checkFilters c ''http://example.com/'' ''example.com'' \<and>
     \<not> checkFilters c ''http://sub.example.com/'' ''sub.example.com''"
proof -
  have p: "parseHeaders ''Host: internal.example'' None =
      Inr (None, Some (map_of [(''Host'', ''internal.example'')]))"
  proof -
    have "Split ''Host: internal.example'' '';;'' = [''Host: internal.example'']" by code_simp
    moreover have "header_entry ''Host: internal.example'' = Some (''Host'', ''internal.example'')"
      by code_simp
    ultimately show ?thesis
      by (simp add: parseHeaders_def Contains_single parseHeaders_loop_map List.map_filter_simps)
  qed
  let ?hs = "map_of [(''Host'', ''internal.example'')]"
  obtain c where c: "collector ''example.com'' (Some ?hs) 2 False = Some c"
      "AllowedDomains c = allowed_domains ''example.com'' (Some ?hs)"
      "\<And>u domain. checkFilters c u domain \<longleftrightarrow>
        domain = ''example.com'' \<or> (\<exists>m. Some ?hs = Some m \<and> m ''Host'' = Some domain)"
    using subs_off_allowed_domains [of "''example.com''" "Some ?hs" 2]
    by (auto simp: collector_def)
  have "AllowedDomains c = [''example.com'', ''internal.example'']"
    using c(2) by (simp add: allowed_domains_def)
  moreover have "checkFilters c ''http://internal.example/x'' ''internal.example''"
    using c(3) by simp
  moreover have "checkFilters c ''http://example.com/'' ''example.com''"
    using c(3) by simp
  moreover have "\<not> checkFilters c ''http://sub.example.com/'' ''sub.example.com''"
    using c(3) by simp
  ultimately show ?thesis using p c(1) by blast
qed

section \<open>What the callbacks emit and what they visit\<close>

text \<open>
  Claim C7, as the code has it. Only the callback for \<^verbatim>\<open>a[href]\<close> hands its link to
  \<^verbatim>\<open>e.Request.Visit\<close>; the callbacks for \<^verbatim>\<open>script[src]\<close> and \<^verbatim>\<open>form[action]\<close> print
  their URL and visit nothing, whatever the URL is.
\<close>

theorem only_anchors_are_visited:
  "snd (OnHTML_a marshal showSource showJson results e) = [Attr e ''href''] \<and>
   snd (OnHTML_script marshal showSource showJson results e) = [] \<and>
   snd (OnHTML_form marshal showSource showJson results e) = []"
  by (simp add: OnHTML_a_def OnHTML_script_def OnHTML_form_def Let_def)

text \<open>
  Claim C7 as stated fails on the page \<^verbatim>\<open>http://h/\<close> crawled from the seed \<^verbatim>\<open>http://h/\<close>:
  the script URL \<^verbatim>\<open>http://h/b.js\<close> and the form URL \<^verbatim>\<open>http://h/c\<close> pass the collector's
  filters and are printed, and neither callback asks for a visit.
\<close>

theorem script_src_not_enqueued:
  "(\<exists>c. collector ''h'' None 2 False = Some c \<and> checkFilters c ''http://h/b.js'' ''h'' \<and>
      checkFilters c ''http://h/c'' ''h'') \<and>
   OnHTML_script plain False False open_chan (element ''src'' ''/b.js'') =
     (\<lparr>sent = [''http://h/b.js''], closed = False\<rparr>, []) \<and>
   OnHTML_form plain False False open_chan (element ''action'' ''/c'') =
     (\<lparr>sent = [''http://h/c''], closed = False\<rparr>, [])"
  by (simp add: collector_def allowed_domains_def checkFilters_def isDomainAllowed_def
      OnHTML_script_def OnHTML_form_def printResult_def printResult_body_def chan_send_def
      result_line_def element_def resolve_h_def open_chan_def)



text \<open>
  A link that \<^verbatim>\<open>AbsoluteURL\<close> answers with the empty string sends nothing; the anchor
  callback still hands it to \<^verbatim>\<open>e.Request.Visit\<close>.
\<close>

theorem unresolved_link_prints_nothing:
  "AbsoluteURL e (Attr e ''href'') = [] \<longrightarrow>
     OnHTML_a marshal showSource showJson results e = (results, [Attr e ''href''])"
  by (simp add: OnHTML_a_def printResult_def printResult_body_def Let_def)

text \<open>The link \<^verbatim>\<open>#top\<close> of the page \<^verbatim>\<open>http://h/\<close>.\<close>

theorem unresolved_link_prints_nothing_witness:
  "AbsoluteURL (element ''href'' ''#top'') (Attr (element ''href'' ''#top'') ''href'') = [] \<and>
   OnHTML_a plain False False open_chan (element ''href'' ''#top'') = (open_chan, [''#top''])"
proof -
  have a: "AbsoluteURL (element ''href'' ''#top'') (Attr (element ''href'' ''#top'') ''href'') = []"
    by (simp add: element_def resolve_h_def)
  have "Attr (element ''href'' ''#top'') ''href'' = ''#top''" by (simp add: element_def)
  with a show ?thesis
    using unresolved_link_prints_nothing [of "element ''href'' ''#top''" plain False False open_chan]
    by simp
qed

section \<open>Unique output\<close>

text \<open>
  Claim C4. \<^verbatim>\<open>isUnique\<close> is given the line, not the URL. With \<^verbatim>\<open>-unique -s\<close>, a page
  that has \<^verbatim>\<open><a href="/a">\<close> and \<^verbatim>\<open><script src="/a">\<close> sends two lines that differ in
  the source, and \<^verbatim>\<open>main\<close> prints both: the URL \<^verbatim>\<open>http://h/a\<close> is in the output twice.
  Without \<^verbatim>\<open>-s\<close> the two lines are equal and the second is dropped.
\<close>

theorem unique_keeps_a_url_twice:
  "sent (fst (OnHTML_script plain True False
           (fst (OnHTML_a plain True False open_chan (element ''href'' ''/a'')))
           (element ''src'' ''/a''))) =
     [''[href] http://h/a'', ''[script] http://h/a''] \<and>
   main_output True [''[href] http://h/a'', ''[script] http://h/a''] =
     [''[href] http://h/a'', ''[script] http://h/a''] \<and>
   main_output True [''http://h/a'', ''http://h/a''] = [''http://h/a'']"
  by (simp add: OnHTML_script_def OnHTML_a_def printResult_def printResult_body_def
      chan_send_def result_line_def element_def resolve_h_def open_chan_def Let_def
      main_output_def isUnique_def)

lemma unique_loop_set:
  "distinct (unique_loop rs sm) \<and> set (unique_loop rs sm) = set rs - dom sm"
proof (induction rs arbitrary: sm)
  case Nil
  show ?case by simp
next
  case (Cons r rs)
  show ?case
  proof (cases "sm r")
    case None
    let ?sm' = "sm(r \<mapsto> True)"
    have ih1: "distinct (unique_loop rs ?sm')"
      and ih2: "set (unique_loop rs ?sm') = set rs - dom ?sm'"
      using Cons.IH by blast+
    have u: "unique_loop (r # rs) sm = r # unique_loop rs ?sm'"
      using None by (simp add: isUnique_def)
    have d: "dom ?sm' = insert r (dom sm)" by simp
    have n: "r \<notin> dom sm" using None by (simp add: domIff)
    have "distinct (r # unique_loop rs ?sm')" using ih1 ih2 d by simp
    moreover have "set (r # unique_loop rs ?sm') = set (r # rs) - dom sm"
      using ih2 d n by auto
    ultimately show ?thesis by (simp only: u)
  next
    case (Some b)
    have u: "unique_loop (r # rs) sm = unique_loop rs sm"
      using Some by (simp add: isUnique_def)
    have "r \<in> dom sm" using Some by (simp add: domIff)
    then have "set rs - dom sm = set (r # rs) - dom sm" by auto
    then show ?thesis using Cons.IH [of sm] by (simp only: u)
  qed
qed

text \<open>
  With \<^verbatim>\<open>-unique\<close> no line is printed twice and every line received is printed once;
  without it every line received is printed, in order.
\<close>

theorem unique_output_distinct_lines:
  "distinct (main_output True received) \<and>
   set (main_output True received) = set received \<and>
   main_output False received = received"
  using unique_loop_set [of received Map.empty] by (simp add: main_output_def)

section \<open>Closing the results channel\<close>

lemma make_chan_open: "make_chan threads fits = Inr ch \<Longrightarrow> ch = \<lparr>sent = [], closed = False\<rparr>"
  by (simp add: make_chan_def split: if_splits)

lemma make_chan_ok: "0 \<le> threads \<Longrightarrow> fits \<Longrightarrow> make_chan threads fits = Inr open_chan"
  by (simp add: make_chan_def open_chan_def)

lemma run_append:
  "run m ss sj (xs @ ys) ch = (case run m ss sj xs ch of Inl p \<Rightarrow> Inl p | Inr ch' \<Rightarrow> run m ss sj ys ch')"
proof (induction xs arbitrary: ch)
  case Nil
  show ?case by simp
next
  case (Cons x xs)
  show ?case by (cases x) (simp_all add: Cons.IH split: sum.splits)
qed

lemma printResult_open:
  "\<not> closed ch \<Longrightarrow> printResult m link src ss sj ch e =
     ch\<lparr>sent := sent ch @ (if AbsoluteURL e link \<noteq> [] then [result_line m src ss sj (AbsoluteURL e link)] else [])\<rparr>"
  by (simp add: printResult_def printResult_body_def chan_send_def Let_def)

lemma printResult_closed: "closed ch \<Longrightarrow> printResult m link src ss sj ch e = ch"
  by (simp add: printResult_def printResult_body_def chan_send_def Let_def)

lemma run_callbacks_open:
  "CloseResults \<notin> set evs \<Longrightarrow> \<not> closed ch \<Longrightarrow>
     run m ss sj evs ch = Inr (ch\<lparr>sent := sent ch @ lines_of m ss sj evs\<rparr>)"
proof (induction evs arbitrary: ch)
  case Nil
  show ?case by simp
next
  case (Cons x evs)
  then show ?case by (cases x) (simp_all add: printResult_open)
qed

lemma run_callbacks_closed:
  "CloseResults \<notin> set evs \<Longrightarrow> closed ch \<Longrightarrow> run m ss sj evs ch = Inr ch"
proof (induction evs arbitrary: ch)
  case Nil
  show ?case by simp
next
  case (Cons x evs)
  then show ?case by (cases x) (simp_all add: printResult_closed)
qed

lemma goroutine_events_cases:
  "goroutine_events parsed subsInScope other timeout crawl_returns = [] \<or>
   goroutine_events parsed subsInScope other timeout crawl_returns = [CloseResults]"
  by (simp add: goroutine_events_def split: goroutine_end.splits)

lemma MustCompile_URLFilter_literal:
  "URLFilter hostname = Some re \<Longrightarrow> MustCompile_URLFilter hostname other = Inr re"
  by (simp add: MustCompile_URLFilter_def)

lemma goroutine_ReachedClose:
  assumes "\<not> subsInScope \<or> (\<exists>re. MustCompile_URLFilter (Hostname u) other = Inr re)"
    and "timeout \<noteq> - 1 \<or> crawl_returns"
  shows "goroutine (Inr u) subsInScope other timeout crawl_returns = ReachedClose"
  using assms by (auto simp: goroutine_def extractHostname_def set_URLFilters_def)

text \<open>
  The two panics that end the program before \<^verbatim>\<open>close(results)\<close>. A negative \<^verbatim>\<open>-t\<close>: line
  68 panics, and there is no channel and no goroutine. \<^verbatim>\<open>-subs\<close> with the seed
  \<^verbatim>\<open>http://a(b.com/\<close>: the goroutine panics at line 111, whatever the other inputs
  are, and \<^verbatim>\<open>results\<close> is never closed.
\<close>

lemma negative_threads_panic:
  "threads < 0 \<Longrightarrow> rawHeaders = [] \<or> CHR '':'' \<in> set rawHeaders \<Longrightarrow>
     make_chan threads fits = Inl MakeChanSizeOutOfRange \<and>
     main_outcome rawHeaders threads fits parsed subsInScope other timeout crawl_returns =
       Crashed MakeChanSizeOutOfRange"
  by (auto simp: make_chan_def main_outcome_def parseHeaders_def Contains_single
      parseHeaders_loop_map)

lemma subs_unescaped_hostname_panic:
  "goroutine (Inr \<lparr>Hostname = ''a(b.com''\<rparr>) True other timeout crawl_returns =
     Panicked MustCompileError \<and>
   goroutine_events (Inr \<lparr>Hostname = ''a(b.com''\<rparr>) True other timeout crawl_returns = [] \<and>
   main_outcome [] 8 True (Inr \<lparr>Hostname = ''a(b.com''\<rparr>) True other timeout crawl_returns =
     Crashed MustCompileError"
proof -
  have m: "MustCompile_URLFilter ''a(b.com'' other = Inl MustCompileError"
    by (simp add: MustCompile_URLFilter_def URLFilter_def regexp_syntax_def missing_paren_def)
  have g: "goroutine (Inr \<lparr>Hostname = ''a(b.com''\<rparr>) True other timeout crawl_returns =
      Panicked MustCompileError"
    using m by (simp add: goroutine_def extractHostname_def set_URLFilters_def)
  show ?thesis
    using g by (simp add: goroutine_events_def main_outcome_def parseHeaders_def make_chan_def)
qed

text \<open>
  Claim C1, as the code has it. Take any run in which line 68 has made \<^verbatim>\<open>results\<close> and
  only the goroutine closes it: callbacks before, what the goroutine itself does,
  callbacks after. No send and no close panics out of the run, so the channel is never
  closed twice. If \<^verbatim>\<open>url.Parse\<close> accepts the seed, the expression of line 111 compiles
  when \<^verbatim>\<open>-subs\<close> is set, and the goroutine gets past the crawl (a timeout is set, or the
  crawl returns), the channel ends closed, and it holds exactly the lines sent before
  the close: a \<^verbatim>\<open>printResult\<close> that runs after the close leaves the channel as it was.
\<close>

theorem results_closed_once:
  assumes "make_chan threads fits = Inr results"
    and "CloseResults \<notin> set before" and "CloseResults \<notin> set after"
  shows "(\<exists>ch. run marshal showSource showJson
            (before @ goroutine_events parsed subsInScope other timeout crawl_returns @ after)
            results = Inr ch) \<and>
         ((\<not> subsInScope \<or> (\<exists>re. MustCompile_URLFilter (Hostname u) other = Inr re)) \<and>
          (timeout \<noteq> - 1 \<or> crawl_returns) \<longrightarrow>
            run marshal showSource showJson
              (before @ goroutine_events (Inr u) subsInScope other timeout crawl_returns @ after)
              results =
            Inr \<lparr>sent = lines_of marshal showSource showJson before, closed = True\<rparr>)"
proof (intro conjI impI)
  have r: "results = \<lparr>sent = [], closed = False\<rparr>"
    using assms(1) by (rule make_chan_open)
  have b: "run marshal showSource showJson before results =
      Inr \<lparr>sent = lines_of marshal showSource showJson before, closed = False\<rparr>"
    using run_callbacks_open [OF assms(2), of results] by (simp add: r)
  show "\<exists>ch. run marshal showSource showJson
      (before @ goroutine_events parsed subsInScope other timeout crawl_returns @ after)
      results = Inr ch"
    using goroutine_events_cases [of parsed subsInScope other timeout crawl_returns]
  proof
    assume "goroutine_events parsed subsInScope other timeout crawl_returns = []"
    then show ?thesis
      using run_callbacks_open [OF assms(3)] by (simp add: run_append b)
  next
    assume "goroutine_events parsed subsInScope other timeout crawl_returns = [CloseResults]"
    then show ?thesis
      using run_callbacks_closed [OF assms(3)] by (simp add: run_append b chan_close_def)
  qed
  assume "(\<not> subsInScope \<or> (\<exists>re. MustCompile_URLFilter (Hostname u) other = Inr re)) \<and>
      (timeout \<noteq> - 1 \<or> crawl_returns)"
  then have "goroutine (Inr u) subsInScope other timeout crawl_returns = ReachedClose"
    using goroutine_ReachedClose [of subsInScope u other timeout crawl_returns] by blast
  then have "goroutine_events (Inr u) subsInScope other timeout crawl_returns = [CloseResults]"
    by (simp add: goroutine_events_def)
  then show "run marshal showSource showJson
      (before @ goroutine_events (Inr u) subsInScope other timeout crawl_returns @ after)
      results =
      Inr \<lparr>sent = lines_of marshal showSource showJson before, closed = True\<rparr>"
    using run_callbacks_closed [OF assms(3)] by (simp add: run_append b chan_close_def)
qed

text \<open>
  A run with \<^verbatim>\<open>-t 8 -subs -timeout 1\<close> on the seed \<^verbatim>\<open>http://h/\<close> whose crawl does not
  return: the anchor is found before the close and the script after it.
\<close>

theorem results_closed_once_witness:
  "make_chan 8 True = Inr open_chan \<and>
   CloseResults \<notin> set [Found ''/a'' ''href'' (element ''href'' ''/a'')] \<and>
   CloseResults \<notin> set [Found ''/b.js'' ''script'' (element ''src'' ''/b.js'')] \<and>
   (\<exists>re. MustCompile_URLFilter ''h'' None = Inr re) \<and>
   run plain False False
     ([Found ''/a'' ''href'' (element ''href'' ''/a'')] @
      goroutine_events (Inr \<lparr>Hostname = ''h''\<rparr>) True None 1 False @
      [Found ''/b.js'' ''script'' (element ''src'' ''/b.js'')]) open_chan =
   Inr \<lparr>sent = [''http://h/a''], closed = True\<rparr>"
proof -
  have c: "make_chan 8 True = Inr open_chan"
    by (simp add: make_chan_def open_chan_def)
  have a: "CloseResults \<notin> set [Found ''/a'' ''href'' (element ''href'' ''/a'')]" by simp
  have b: "CloseResults \<notin> set [Found ''/b.js'' ''script'' (element ''src'' ''/b.js'')]" by simp
  have m: "\<exists>re. MustCompile_URLFilter ''h'' None = Inr re"
    by (simp add: MustCompile_URLFilter_def URLFilter_def regexp_syntax_def)
  have l: "lines_of plain False False [Found ''/a'' ''href'' (element ''href'' ''/a'')] = [''http://h/a'']"
    by (simp add: element_def resolve_h_def result_line_def)
  show ?thesis
    using results_closed_once [OF c a b, where timeout = 1 and crawl_returns = False
        and marshal = plain and showSource = False and showJson = False
        and subsInScope = True and other = None
        and parsed = "Inr \<lparr>Hostname = ''h''\<rparr>" and u = "\<lparr>Hostname = ''h''\<rparr>"] c a b m l
    by simp
qed

text \<open>
  Claim C1 as stated fails after a timeout: the goroutine has closed \<^verbatim>\<open>results\<close>, a
  callback that is still running calls \<^verbatim>\<open>printResult\<close>, and the send at line 263 is a
  send on a closed channel. It panics; lines 258 to 262 recover from it.
\<close>

theorem send_after_timeout_close:
  "make_chan 8 True = Inr open_chan \<and>
   run plain False False (goroutine_events (Inr \<lparr>Hostname = ''h''\<rparr>) False None 1 False) open_chan =
     Inr \<lparr>sent = [], closed = True\<rparr> \<and>
   printResult_body plain ''/b.js'' ''script'' False False \<lparr>sent = [], closed = True\<rparr>
     (element ''src'' ''/b.js'') = Inl SendOnClosedChannel"
  by (simp add: make_chan_def goroutine_events_def goroutine_def extractHostname_def
      set_URLFilters_def chan_close_def open_chan_def printResult_body_def chan_send_def
      element_def resolve_h_def)

section \<open>Exit codes\<close>

lemma parseHeaders_error:
  "rawHeaders \<noteq> [] \<Longrightarrow> CHR '':'' \<notin> set rawHeaders \<Longrightarrow>
     \<exists>err. parseHeaders rawHeaders hs = Inr (Some err, hs)"
  by (simp add: parseHeaders_def Contains_single)

lemma parseHeaders_ok:
  "rawHeaders = [] \<or> CHR '':'' \<in> set rawHeaders \<Longrightarrow>
     \<exists>hs'. parseHeaders rawHeaders hs = Inr (None, hs')"
  by (auto simp: parseHeaders_def Contains_single parseHeaders_loop_map)

text \<open>
  Claim C6, as the code has it. A header flag that is non-empty and has no colon ends
  the program with code 1. With any other header flag, a \<^verbatim>\<open>-t\<close> that line 68 can make
  the channel with, a seed that \<^verbatim>\<open>url.Parse\<close> accepts, with a host name or without, and,
  when \<^verbatim>\<open>-subs\<close> is set, a host name with which the expression of line 111 compiles,
  the program ends with code 0 once the crawl returns or, if a timeout is set, the
  timeout fires.
\<close>

theorem exit_codes:
  "(rawHeaders \<noteq> [] \<and> CHR '':'' \<notin> set rawHeaders \<longrightarrow>
      main_outcome rawHeaders threads fits parsed subsInScope other timeout crawl_returns =
        Exit 1) \<and>
   ((rawHeaders = [] \<or> CHR '':'' \<in> set rawHeaders) \<and> 0 \<le> threads \<and> fits \<and>
    (\<not> subsInScope \<or> (\<exists>re. MustCompile_URLFilter (Hostname u) other = Inr re)) \<and>
    (timeout \<noteq> - 1 \<or> crawl_returns) \<longrightarrow>
      main_outcome rawHeaders threads fits (Inr u) subsInScope other timeout crawl_returns =
        Exit 0)"
proof (intro conjI impI)
  assume "rawHeaders \<noteq> [] \<and> CHR '':'' \<notin> set rawHeaders"
  then obtain err where "parseHeaders rawHeaders None = Inr (Some err, None)"
    using parseHeaders_error [of rawHeaders None] by blast
  then show "main_outcome rawHeaders threads fits parsed subsInScope other timeout crawl_returns =
      Exit 1"
    by (simp add: main_outcome_def)
next
  assume a: "(rawHeaders = [] \<or> CHR '':'' \<in> set rawHeaders) \<and> 0 \<le> threads \<and> fits \<and>
      (\<not> subsInScope \<or> (\<exists>re. MustCompile_URLFilter (Hostname u) other = Inr re)) \<and>
      (timeout \<noteq> - 1 \<or> crawl_returns)"
  then obtain hs' where h: "parseHeaders rawHeaders None = Inr (None, hs')"
    using parseHeaders_ok [of rawHeaders None] by blast
  have c: "make_chan threads fits = Inr open_chan"
    using a make_chan_ok [of threads fits] by blast
  have g: "goroutine (Inr u) subsInScope other timeout crawl_returns = ReachedClose"
    using a goroutine_ReachedClose [of subsInScope u other timeout crawl_returns] by blast
  show "main_outcome rawHeaders threads fits (Inr u) subsInScope other timeout crawl_returns =
      Exit 0"
    by (simp add: main_outcome_def h c g)
qed

text \<open>
  A header flag without a colon; a good header flag with \<^verbatim>\<open>-subs\<close> and a timeout that
  cuts the crawl off; no header flag and a crawl that returns.
\<close>

theorem exit_codes_witness:
  "main_outcome ''Cookie'' 8 True (Inr \<lparr>Hostname = ''h''\<rparr>) False None (- 1) True = Exit 1 \<and>
   (\<exists>re. MustCompile_URLFilter ''h'' None = Inr re) \<and>
   main_outcome ''Cookie: a=b'' 8 True (Inr \<lparr>Hostname = ''h''\<rparr>) True None 1 False = Exit 0 \<and>
   main_outcome [] 8 True (Inr \<lparr>Hostname = ''h''\<rparr>) False None (- 1) True = Exit 0"
proof -
  have m: "\<exists>re. MustCompile_URLFilter ''h'' None = Inr re"
    by (simp add: MustCompile_URLFilter_def URLFilter_def regexp_syntax_def)
  show ?thesis
    using m
      exit_codes [where rawHeaders = "''Cookie''" and threads = 8 and fits = True
        and parsed = "Inr \<lparr>Hostname = ''h''\<rparr>" and subsInScope = False and other = None
        and timeout = "- 1" and crawl_returns = True]
      exit_codes [where rawHeaders = "''Cookie: a=b''" and threads = 8 and fits = True
        and subsInScope = True and other = None and timeout = 1 and crawl_returns = False
        and u = "\<lparr>Hostname = ''h''\<rparr>"]
      exit_codes [where rawHeaders = "[]" and threads = 8 and fits = True
        and subsInScope = False and other = None and timeout = "- 1" and crawl_returns = True
        and u = "\<lparr>Hostname = ''h''\<rparr>"]
    by simp
qed

text \<open>
  Claim C6 as stated fails for a seed that parses to a URL with no host name (the empty
  string is one): \<^verbatim>\<open>extractHostname\<close> returns the empty host name and no error, the crawl
  is started, and the program ends with code 0.
\<close>

theorem seed_without_hostname_exits_0:
  "extractHostname (Inr \<lparr>Hostname = []\<rparr>) = ([], None) \<and>
   main_outcome [] 8 True (Inr \<lparr>Hostname = []\<rparr>) False None (- 1) True = Exit 0"
  by (simp add: extractHostname_def main_outcome_def parseHeaders_def make_chan_def
      goroutine_def set_URLFilters_def)

section \<open>The URL filter of -subs\<close>

text \<open>
  Claim C2. With \<^verbatim>\<open>-subs\<close> and the seed host \<^verbatim>\<open>hostname.com\<close>, the URL filter lets
  through URLs of the unrelated host \<^verbatim>\<open>evil.com\<close> that carry \<^verbatim>\<open>.hostname.com\<close> in the
  path or \<^verbatim>\<open>//hostname.com\<close> in the query, and a URL of \<^verbatim>\<open>hostname.com.evil.com\<close>; it
  does let a subdomain through and does stop \<^verbatim>\<open>nothostname.com\<close> and
  \<^verbatim>\<open>evil-hostname.com\<close>.
\<close>

theorem subs_filter_passes_foreign_host:
  "\<exists>c. collector ''hostname.com'' None 2 True = Some c \<and>
     checkFilters c ''http://evil.com/.hostname.com'' ''evil.com'' \<and>
     checkFilters c ''http://evil.com/?next=//hostname.com'' ''evil.com'' \<and>
     checkFilters c ''http://hostname.com.evil.com/'' ''hostname.com.evil.com'' \<and>
     checkFilters c ''http://sub.hostname.com/a'' ''sub.hostname.com'' \<and>
     \<not> checkFilters c ''http://nothostname.com/'' ''nothostname.com'' \<and>
     \<not> checkFilters c ''http://evil-hostname.com/'' ''evil-hostname.com''"
proof -
  obtain re where re: "URLFilter ''hostname.com'' = Some re"
    by (simp add: URLFilter_def regexp_syntax_def)
  have m: "Match (the (URLFilter ''hostname.com'')) ''http://evil.com/.hostname.com''"
    "Match (the (URLFilter ''hostname.com'')) ''http://evil.com/?next=//hostname.com''"
    "Match (the (URLFilter ''hostname.com'')) ''http://hostname.com.evil.com/''"
    "Match (the (URLFilter ''hostname.com'')) ''http://sub.hostname.com/a''"
    "\<not> Match (the (URLFilter ''hostname.com'')) ''http://nothostname.com/''"
    "\<not> Match (the (URLFilter ''hostname.com'')) ''http://evil-hostname.com/''"
    by code_simp+
  have c: "collector ''hostname.com'' None 2 True =
      Some \<lparr>AllowedDomains = [], URLFilters = [re], MaxDepth = 2\<rparr>"
    using re by (simp add: collector_def)
  show ?thesis
    using m re unfolding c
    by (simp add: checkFilters_def isMatchingFilter_def isDomainAllowed_def)
qed

end
